theory Spec2Isabelle
  imports Main
begin

section \<open>Strings of the source\<close>

text \<open>
  The compiler \<^verbatim>\<open>build.js\<close> works on JavaScript strings, sequences of UTF-16 code units.
  A \<^typ>\<open>char\<close> stands for the code unit of the same number, so the model covers the
  strings whose code units are below 256 (ASCII and the Latin-1 supplement); the length
  of a string is its number of code units, as \<^verbatim>\<open>length\<close> and \<^verbatim>\<open>substring\<close> count.
\<close>

definition code :: "char \<Rightarrow> nat" where
  "code c = of_char c"

text \<open>The class \<^verbatim>\<open>\s\<close>, which is also what \<^verbatim>\<open>trim\<close> removes: tab, line feed, vertical tab,
  form feed, carriage return, space and the no-break space.\<close>

definition is_space :: "char \<Rightarrow> bool" where
  "is_space c = ((9 \<le> code c \<and> code c \<le> 13) \<or> code c = 32 \<or> code c = 160)"

text \<open>The class \<^verbatim>\<open>\w\<close> (no \<^verbatim>\<open>i\<close> or \<^verbatim>\<open>u\<close> flag): \<^verbatim>\<open>[A-Za-z0-9_]\<close>.\<close>

definition is_word :: "char \<Rightarrow> bool" where
  "is_word c = ((48 \<le> code c \<and> code c \<le> 57) \<or> (65 \<le> code c \<and> code c \<le> 90)
                \<or> code c = 95 \<or> (97 \<le> code c \<and> code c \<le> 122))"

definition not_word :: "char \<Rightarrow> bool" where
  "not_word c = (\<not> is_word c)"

text \<open>The dot (no \<^verbatim>\<open>s\<close> flag): every code unit except the line terminators.\<close>

definition is_dot :: "char \<Rightarrow> bool" where
  "is_dot c = (code c \<noteq> 10 \<and> code c \<noteq> 13)"

text \<open>\<^verbatim>\<open>[\s\S]\<close> and \<^verbatim>\<open>[^>]\<close>.\<close>

definition any_char :: "char \<Rightarrow> bool" where
  "any_char c = (is_space c \<or> \<not> is_space c)"

definition not_gt :: "char \<Rightarrow> bool" where
  "not_gt c = (c \<noteq> CHR ''>'')"

text \<open>\<^verbatim>\<open>toLowerCase\<close> below 256: the letters A-Z and the capitals of the Latin-1 supplement
  (192 to 222 without the multiplication sign 215) move up by 32.\<close>

definition lower_char :: "char \<Rightarrow> char" where
  "lower_char c =
     (if (65 \<le> code c \<and> code c \<le> 90) \<or> (192 \<le> code c \<and> code c \<le> 222 \<and> code c \<noteq> 215)
      then char_of (code c + 32) else c)"

definition toLowerCase :: "string \<Rightarrow> string" where
  "toLowerCase s = map lower_char s"

definition trim :: "string \<Rightarrow> string" where
  "trim s = rev (dropWhile is_space (rev (dropWhile is_space s)))"

text \<open>\<^verbatim>\<open>s.includes(t)\<close>.\<close>

fun str_includes :: "string \<Rightarrow> string \<Rightarrow> bool" where
  "str_includes [] t = (t = [])"
| "str_includes (c # cs) t = (take (length t) (c # cs) = t \<or> str_includes cs t)"

text \<open>\<^verbatim>\<open>s.replace(pat, rep)\<close> with a string pattern: the first occurrence only.\<close>

fun replace_str :: "string \<Rightarrow> string \<Rightarrow> string \<Rightarrow> string" where
  "replace_str pat rep [] = (if pat = [] then rep else [])"
| "replace_str pat rep (c # cs) =
     (if take (length pat) (c # cs) = pat then rep @ drop (length pat) (c # cs)
      else c # replace_str pat rep cs)"

text \<open>Numbers in template literals: the decimal digits.\<close>

fun string_of_nat :: "nat \<Rightarrow> string" where
  "string_of_nat n =
     (if n < 10 then [char_of (48 + n)] else string_of_nat (n div 10) @ [char_of (48 + n mod 10)])"

declare string_of_nat.simps [simp del]


section \<open>Regular expressions\<close>

text \<open>
  The expressions of the source use literals, character classes, alternation, groups and
  the quantifiers \<^verbatim>\<open>*\<close>, \<^verbatim>\<open>*?\<close>, \<^verbatim>\<open>+\<close> and \<^verbatim>\<open>?\<close> on single characters.  A class with \<^verbatim>\<open>+\<close> is
  the class followed by its star; \<^verbatim>\<open>x?\<close> is the alternative of \<^verbatim>\<open>x\<close> and the empty match.
\<close>

datatype re =
    Eps
  | Str string
  | Cls "char \<Rightarrow> bool"
  | Star "char \<Rightarrow> bool"
  | Star_lazy "char \<Rightarrow> bool"
  | Seq re re
  | Alt re re
  | Group re

text \<open>The inputs left after 0, 1, 2, ... characters of a class.\<close>

fun stars :: "(char \<Rightarrow> bool) \<Rightarrow> string \<Rightarrow> string list" where
  "stars P [] = [[]]"
| "stars P (c # cs) = (c # cs) # (if P c then stars P cs else [])"

text \<open>
  A backtracking matcher tries the ways to match in a fixed order: the left alternative
  first, a greedy star from its longest run down, a lazy star from the empty run up.
  \<open>rmatch r s\<close> lists, in that order, every way to match \<open>r\<close> at the start of \<open>s\<close>, each as
  the captured groups and the input left; the first entry is the match the engine reports.
\<close>

primrec rmatch :: "re \<Rightarrow> string \<Rightarrow> (string list \<times> string) list" where
  "rmatch Eps s = [([], s)]"
| "rmatch (Str w) s = (if take (length w) s = w then [([], drop (length w) s)] else [])"
| "rmatch (Cls P) s = (case s of [] \<Rightarrow> [] | c # cs \<Rightarrow> if P c then [([], cs)] else [])"
| "rmatch (Star P) s = map (Pair []) (rev (stars P s))"
| "rmatch (Star_lazy P) s = map (Pair []) (stars P s)"
| "rmatch (Seq a b) s =
     concat (map (\<lambda>(g, s'). map (\<lambda>(g', s''). (g @ g', s'')) (rmatch b s')) (rmatch a s))"
| "rmatch (Alt a b) s = rmatch a s @ rmatch b s"
| "rmatch (Group a) s = map (\<lambda>(g, s'). (take (length s - length s') s # g, s')) (rmatch a s)"

definition exec_at :: "re \<Rightarrow> string \<Rightarrow> (string list \<times> string) option" where
  "exec_at r s = (case rmatch r s of [] \<Rightarrow> None | m # _ \<Rightarrow> Some m)"

definition cat :: "re list \<Rightarrow> re" where
  "cat rs = foldr Seq rs Eps"

text \<open>\<^verbatim>\<open>s.match(/^r/)\<close>, no \<^verbatim>\<open>g\<close> and no \<^verbatim>\<open>m\<close> flag: the expression can match at index 0 only;
  the result is the matched text followed by the groups, or null.\<close>

definition match_anchored :: "re \<Rightarrow> string \<Rightarrow> string list option" where
  "match_anchored r s =
     (case exec_at r s of None \<Rightarrow> None
      | Some (g, s') \<Rightarrow> Some (take (length s - length s') s # g))"

text \<open>\<^verbatim>\<open>s.replace(/^r/, rep)\<close>, no \<^verbatim>\<open>g\<close> and no \<^verbatim>\<open>m\<close> flag.\<close>

definition replace_anchored :: "re \<Rightarrow> string \<Rightarrow> string \<Rightarrow> string" where
  "replace_anchored r rep s = (case exec_at r s of None \<Rightarrow> s | Some (g, s') \<Rightarrow> rep @ s')"

text \<open>
  \<^verbatim>\<open>s.replace(/r/g, rep)\<close>: from the left, at the first index where \<open>r\<close> matches the match is
  replaced and the scan goes on behind it; an empty match is replaced too and the scan
  moves one character on, copying it.
\<close>

function replace_all :: "re \<Rightarrow> string \<Rightarrow> string \<Rightarrow> string" where
  "replace_all r rep [] = (case exec_at r [] of None \<Rightarrow> [] | Some m \<Rightarrow> rep)"
| "replace_all r rep (c # cs) =
     (case exec_at r (c # cs) of
        None \<Rightarrow> c # replace_all r rep cs
      | Some m \<Rightarrow>
          if length (snd m) < length (c # cs) then rep @ replace_all r rep (snd m)
          else rep @ c # replace_all r rep cs)"
  by pat_completeness auto
termination
  by (relation "measure (\<lambda>(r, rep, s). length s)") auto

declare replace_all.simps [simp del]

text \<open>
  \<^verbatim>\<open>s.split(/r/)\<close> for an expression without groups: the empty string gives one empty piece
  unless \<open>r\<close> matches it; otherwise the scan cuts at every match, an empty match cutting only
  behind a non-empty piece, and the last piece runs to the end.
\<close>

function split_from :: "re \<Rightarrow> string \<Rightarrow> string \<Rightarrow> string list" where
  "split_from r piece [] = [piece]"
| "split_from r piece (c # cs) =
     (case exec_at r (c # cs) of
        None \<Rightarrow> split_from r (piece @ [c]) cs
      | Some m \<Rightarrow>
          if length (snd m) < length (c # cs) then piece # split_from r [] (snd m)
          else if piece = [] then split_from r [c] cs
          else piece # split_from r [c] cs)"
  by pat_completeness auto
termination
  by (relation "measure (\<lambda>(r, piece, s). length s)") auto

declare split_from.simps [simp del]

definition split_re :: "re \<Rightarrow> string \<Rightarrow> string list" where
  "split_re r s =
     (if s = [] then (case exec_at r [] of None \<Rightarrow> [[]] | Some m \<Rightarrow> [])
      else split_from r [] s)"


section \<open>The reading time estimator\<close>

definition ws_plus :: re where
  \<comment> \<open>\<^verbatim>\<open>/\s+/\<close>\<close>
  "ws_plus = Seq (Cls is_space) (Star is_space)"

definition wordsPerMinute :: nat where
  "wordsPerMinute = 200"

text \<open>
  \<^verbatim>\<open>getReadingTime\<close>: the number of pieces of the trimmed content, split at whitespace,
  divided by 200 and rounded up.  The count is far below \<open>2^53\<close>, where the quotient of the
  floating-point division is exact enough for \<^verbatim>\<open>Math.ceil\<close> to be the ceiling of the
  rational quotient.
\<close>

definition getReadingTime :: "string \<Rightarrow> nat" where
  "getReadingTime content =
     (let words = length (split_re ws_plus (trim content))
      in (words + (wordsPerMinute - 1)) div wordsPerMinute)"


section \<open>The renderer of \<^verbatim>\<open>processMarkdown\<close>\<close>

subsection \<open>Headings\<close>

text \<open>
  \<^verbatim>\<open>renderer.heading\<close> takes either a token object (its properties \<^verbatim>\<open>text\<close>, \<^verbatim>\<open>depth\<close>,
  \<^verbatim>\<open>level\<close>, \<^verbatim>\<open>raw\<close>, each possibly undefined) or the positional arguments text, level, raw.
  \<open>a || b\<close> takes \<open>b\<close> when \<open>a\<close> is undefined, the empty string or 0.
\<close>

record heading_token =
  tok_text :: "string option"
  tok_depth :: "nat option"
  tok_level :: "nat option"
  tok_raw :: "string option"

datatype heading_arg =
    Object heading_token
  | Positional string nat "string option"

definition str_or :: "string option \<Rightarrow> string \<Rightarrow> string" where
  "str_or a b = (case a of None \<Rightarrow> b | Some s \<Rightarrow> if s = [] then b else s)"

definition num_or :: "nat option \<Rightarrow> nat \<Rightarrow> nat" where
  "num_or a b = (case a of None \<Rightarrow> b | Some n \<Rightarrow> if n = 0 then b else n)"

fun headerText :: "heading_arg \<Rightarrow> string" where
  "headerText (Object obj) = str_or (tok_text obj) []"
| "headerText (Positional t l r) = t"

fun headerLevel :: "heading_arg \<Rightarrow> nat" where
  "headerLevel (Object obj) = num_or (tok_depth obj) (num_or (tok_level obj) 1)"
| "headerLevel (Positional t l r) = l"

fun headerRaw :: "heading_arg \<Rightarrow> string option" where
  "headerRaw (Object obj) = Some (str_or (tok_raw obj) (headerText (Object obj)))"
| "headerRaw (Positional t l r) = r"

definition nonword_plus :: re where
  \<comment> \<open>\<^verbatim>\<open>/[^\w]+/g\<close>\<close>
  "nonword_plus = Seq (Cls not_word) (Star not_word)"

text \<open>The constant \<^verbatim>\<open>anchor\<close> of \<^verbatim>\<open>renderer.heading\<close>.\<close>

definition anchor :: "heading_arg \<Rightarrow> string" where
  "anchor a =
     replace_all nonword_plus ''-''
       (toLowerCase (str_or (headerRaw a) (str_or (Some (headerText a)) [])))"

record toc_item =
  item_anchor :: string
  item_text :: string
  item_level :: nat

text \<open>The closure variable \<^verbatim>\<open>toc\<close> is passed in and returned.\<close>

definition heading :: "heading_arg \<Rightarrow> toc_item list \<Rightarrow> string \<times> toc_item list" where
  \<open>heading a toc =
     (let toc' = (if headerLevel a \<le> 3
                  then toc @ [\<lparr>item_anchor = anchor a, item_text = headerText a,
                               item_level = headerLevel a\<rparr>]
                  else toc)
      in (''<h'' @ string_of_nat (headerLevel a) @ '' id="'' @ anchor a @ ''">'' @ headerText a
            @ ''</h'' @ string_of_nat (headerLevel a) @ ''>'', toc'))\<close>

subsection \<open>Blockquotes\<close>

text \<open>
  \<^verbatim>\<open>renderer.blockquote\<close> takes the rendered content as a string, or an object whose
  \<^verbatim>\<open>text\<close> property (possibly undefined) is the content.
\<close>

datatype blockquote_arg =
    Content string
  | Quote_token "string option"

fun contentStr :: "blockquote_arg \<Rightarrow> string" where
  "contentStr (Content s) = s"
| "contentStr (Quote_token t) = str_or t []"

definition alert_re :: re where
  \<comment> \<open>\<^verbatim>\<open>/^<p>\[!(NOTE|TIP|IMPORTANT|WARNING|CAUTION)\]\s*(.*?)<\/p>([\s\S]*)/\<close>\<close>
  "alert_re =
     cat [Str ''<p>[!'',
          Group (Alt (Str ''NOTE'') (Alt (Str ''TIP'') (Alt (Str ''IMPORTANT'')
                   (Alt (Str ''WARNING'') (Str ''CAUTION''))))),
          Str '']'', Star is_space, Group (Star_lazy is_dot), Str ''</p>'',
          Group (Star any_char)]"

definition first_line_re :: re where
  \<comment> \<open>\<^verbatim>\<open>/^<p>\[!.*?\]\s*<\/p>/\<close>\<close>
  "first_line_re = cat [Str ''<p>[!'', Star_lazy is_dot, Str '']'', Star is_space, Str ''</p>'']"

text \<open>The constants \<^verbatim>\<open>type\<close>, \<^verbatim>\<open>title\<close> and \<^verbatim>\<open>restOfContent\<close> of a detected alert.  A match of
  \<open>alert_re\<close> has four entries, the whole match and three groups, so index 1 is in range.\<close>

record callout =
  alert_type :: string
  alert_title :: string
  restOfContent :: string

definition alert :: "string \<Rightarrow> callout option" where
  "alert s =
     (case match_anchored alert_re s of
        None \<Rightarrow> None
      | Some alertMatch \<Rightarrow>
          Some \<lparr>alert_type = toLowerCase (alertMatch ! 1), alert_title = alertMatch ! 1,
                restOfContent = replace_anchored first_line_re [] s\<rparr>)"

definition icon_note :: string where
  \<open>icon_note =
     ''<svg class="w-6 h-6" fill="none" viewBox="0 0 24 24" stroke="currentColor"><path stroke-linecap="round" stroke-linejoin="round" stroke-width="2" d="M13 16h-1v-4h-1m1-4h.01M21 12a9 9 0 11-18 0 9 9 0 0118 0z" /></svg>''\<close>

definition icon_tip :: string where
  \<open>icon_tip =
     ''<svg class="w-6 h-6" fill="none" viewBox="0 0 24 24" stroke="currentColor"><path stroke-linecap="round" stroke-linejoin="round" stroke-width="2" d="M9.663 17h4.673M12 3v1m6.364 1.636l-.707.707M21 12h-1M4 12H3m3.343-5.657l-.707-.707m2.828 9.9a5 5 0 117.072 0l-.548.547A3.374 3.374 0 0014 18.469V19a2 2 0 11-4 0v-.531c0-.895-.356-1.754-.988-2.386l-.548-.547z" /></svg>''\<close>

definition icon_important :: string where
  \<open>icon_important =
     ''<svg class="w-6 h-6" fill="none" viewBox="0 0 24 24" stroke="currentColor"><path stroke-linecap="round" stroke-linejoin="round" stroke-width="2" d="M12 8v4m0 4h.01M21 12a9 9 0 11-18 0 9 9 0 0118 0z" /></svg>''\<close>

definition icon_warning :: string where
  \<open>icon_warning =
     ''<svg class="w-6 h-6" fill="none" viewBox="0 0 24 24" stroke="currentColor"><path stroke-linecap="round" stroke-linejoin="round" stroke-width="2" d="M12 9v2m0 4h.01m-6.938 4h13.856c1.54 0 2.502-1.667 1.732-3L13.732 4c-.77-1.333-2.694-1.333-3.464 0L3.34 16c-.77 1.333.192 3 1.732 3z" /></svg>''\<close>

definition icon_caution :: string where
  \<open>icon_caution =
     ''<svg class="w-6 h-6" fill="none" viewBox="0 0 24 24" stroke="currentColor"><path stroke-linecap="round" stroke-linejoin="round" stroke-width="2" d="M12 8v4m0 4h.01M21 12a9 9 0 11-18 0 9 9 0 0118 0z" /></svg>''\<close>

definition color_note :: string where
  \<open>color_note =
     ''border-blue-500 bg-blue-500/10 text-blue-200''\<close>

definition color_tip :: string where
  \<open>color_tip =
     ''border-green-500 bg-green-500/10 text-green-200''\<close>

definition color_important :: string where
  \<open>color_important =
     ''border-purple-500 bg-purple-500/10 text-purple-200''\<close>

definition color_warning :: string where
  \<open>color_warning =
     ''border-yellow-500 bg-yellow-500/10 text-yellow-200''\<close>

definition color_caution :: string where
  \<open>color_caution =
     ''border-red-500 bg-red-500/10 text-red-200''\<close>

definition icons :: "(string \<times> string) list" where
  "icons = [(''note'', icon_note), (''tip'', icon_tip), (''important'', icon_important),
            (''warning'', icon_warning), (''caution'', icon_caution)]"

definition colors :: "(string \<times> string) list" where
  "colors = [(''note'', color_note), (''tip'', color_tip), (''important'', color_important),
             (''warning'', color_warning), (''caution'', color_caution)]"

text \<open>\<^verbatim>\<open>table[key] || table.note\<close>.\<close>

definition lookup_or_note :: "(string \<times> string) list \<Rightarrow> string \<Rightarrow> string" where
  "lookup_or_note table k = str_or (map_of table k) (str_or (map_of table ''note'') [])"

definition callout_html :: "callout \<Rightarrow> string" where
  \<open>callout_html c =
     [CHR 0x0A] @ ''                <div class="my-8 p-4 border-l-4 rounded-r-lg flex gap-4 ''
       @ lookup_or_note colors (alert_type c) @ ''">'' @
     [CHR 0x0A] @ ''                    <div class="shrink-0 mt-1">''
       @ lookup_or_note icons (alert_type c) @ ''</div>'' @
     [CHR 0x0A] @ ''                    <div class="prose prose-invert prose-sm max-w-none">'' @
     [CHR 0x0A] @ ''                        <strong class="block mb-1 capitalize text-white font-bold">''
       @ alert_title c @ ''</strong>'' @
     [CHR 0x0A] @ ''                        '' @ restOfContent c @
     [CHR 0x0A] @ ''                    </div>'' @
     [CHR 0x0A] @ ''                </div>'' @
     [CHR 0x0A] @ ''            ''\<close>

definition plain_blockquote :: "string \<Rightarrow> string" where
  "plain_blockquote s = ''<blockquote>'' @ s @ ''</blockquote>''"

definition blockquote :: "blockquote_arg \<Rightarrow> string" where
  "blockquote a =
     (case alert (contentStr a) of
        Some c \<Rightarrow> callout_html c
      | None \<Rightarrow> plain_blockquote (contentStr a))"

subsection \<open>The document\<close>

text \<open>
  \<^verbatim>\<open>marked.parse\<close> is the library's: it reads the content into tokens, renders them in
  document order and joins the results.  For a heading it calls \<^verbatim>\<open>renderer.heading\<close>.  For a
  blockquote it calls \<^verbatim>\<open>renderer.blockquote\<close> in one of two ways, both of which the renderer
  accepts: with the HTML of the blocks inside the blockquote, which the library has rendered
  before the call; or with the token of the blockquote, whose \<^verbatim>\<open>text\<close> is the source text
  inside the blockquote and whose nested tokens are rendered only when the renderer does
  so.  This renderer takes the \<^verbatim>\<open>text\<close> and renders no nested token.  Any other block
  with blocks inside (a list item) is rendered by the library: it renders the nested tokens
  and wraps their HTML.  The library's reading of the content (\<open>lexer\<close>), its wrapping and its
  rendering of every other block are parameters of the model.
\<close>

datatype token =
    Heading heading_arg
  | Blockquote_html "token list"
  | Blockquote_token "string option" "token list"
  | Container "string \<Rightarrow> string" "token list"
  | Rendered string

fun parse :: "token list \<Rightarrow> toc_item list \<Rightarrow> string \<times> toc_item list"
  and render :: "token \<Rightarrow> toc_item list \<Rightarrow> string \<times> toc_item list" where
  "parse [] toc = ([], toc)"
| "parse (t # ts) toc =
     (case render t toc of (h, toc1) \<Rightarrow>
        (case parse ts toc1 of (h', toc2) \<Rightarrow> (h @ h', toc2)))"
| "render (Heading a) toc = heading a toc"
| "render (Blockquote_html ts) toc =
     (case parse ts toc of (inner, toc1) \<Rightarrow> (blockquote (Content inner), toc1))"
| "render (Blockquote_token quote ts) toc = (blockquote (Quote_token quote), toc)"
| "render (Container wrap ts) toc =
     (case parse ts toc of (inner, toc1) \<Rightarrow> (wrap inner, toc1))"
| "render (Rendered h) toc = (h, toc)"

definition processMarkdown :: "(string \<Rightarrow> token list) \<Rightarrow> string \<Rightarrow> toc_item list \<times> string" where
  "processMarkdown lexer content =
     (case parse (lexer content) [] of (htmlContent, toc) \<Rightarrow> (toc, htmlContent))"


section \<open>The build\<close>

text \<open>
  \<^verbatim>\<open>matter\<close> (gray-matter) is a library: it is a parameter, returning either the exception
  it throws or the metadata and the content.  Of the metadata the build reads the fields
  below, each of which can be missing; \<open>fm_date\<close> is the time value of
  \<^verbatim>\<open>new Date(data.date)\<close>, and is missing when that is not a valid date, as it is for metadata
  without a date.  Of the failures of a run the model has those of this parser.
\<close>

datatype error = Thrown string

record frontmatter =
  fm_title :: "string option"
  fm_description :: "string option"
  fm_author :: "string option"
  fm_date :: "int option"
  fm_tags :: "string list option"
  fm_heroImage :: "string option"

record post =
  title :: "string option"
  description :: "string option"
  author :: "string option"
  slug :: string
  readingTime :: nat
  toc :: "toc_item list"
  htmlContent :: string
  date :: "int option"
  tags :: "string list"
  heroImage :: "string option"

record search_record =
  sr_title :: "string option"
  sr_slug :: string
  sr_description :: "string option"
  sr_tags :: "string list"
  sr_content :: string

definition endsWith :: "string \<Rightarrow> string \<Rightarrow> bool" where
  "endsWith s suffix = (drop (length s - length suffix) s = suffix)"

definition slug_of :: "string \<Rightarrow> string" where
  \<comment> \<open>\<^verbatim>\<open>file.replace('.md', '')\<close>\<close>
  "slug_of file = replace_str ''.md'' [] file"

definition make_post ::
  "(string \<Rightarrow> token list) \<Rightarrow> string \<Rightarrow> frontmatter \<Rightarrow> string \<Rightarrow> post" where
  "make_post lexer file data content =
     (case processMarkdown lexer content of
        (toc', html) \<Rightarrow>
          \<lparr>title = fm_title data, description = fm_description data, author = fm_author data,
           slug = slug_of file, readingTime = getReadingTime content, toc = toc',
           htmlContent = html, date = fm_date data,
           tags = (case fm_tags data of None \<Rightarrow> [] | Some ts \<Rightarrow> ts),
           heroImage = (case fm_heroImage data of None \<Rightarrow> None
                        | Some url \<Rightarrow> if url = [] then None else Some url)\<rparr>)"

text \<open>The \<^verbatim>\<open>forEach\<close> over the files: an exception of \<^verbatim>\<open>matter\<close> ends it at once.\<close>

fun process_files ::
  "(string \<Rightarrow> error + frontmatter \<times> string) \<Rightarrow> (string \<Rightarrow> token list) \<Rightarrow>
   (string \<times> string) list \<Rightarrow> post list \<Rightarrow> error + post list" where
  "process_files matter lexer [] posts = Inr posts"
| "process_files matter lexer ((file, rawContent) # files) posts =
     (case matter rawContent of
        Inl e \<Rightarrow> Inl e
      | Inr (data, content) \<Rightarrow>
          process_files matter lexer files (posts @ [make_post lexer file data content]))"

definition tag_re :: re where
  \<comment> \<open>\<^verbatim>\<open>/<[^>]*>?/gm\<close>\<close>
  "tag_re = cat [Str ''<'', Star not_gt, Alt (Str ''>'') Eps]"

definition snippet :: "string \<Rightarrow> string" where
  \<comment> \<open>\<^verbatim>\<open>p.htmlContent.replace(/<[^>]*>?/gm, ' ').substring(0, 300)\<close>\<close>
  "snippet html = take 300 (replace_all tag_re '' '' html)"

definition searchIndex :: "post list \<Rightarrow> search_record list" where
  "searchIndex posts =
     map (\<lambda>p. \<lparr>sr_title = title p, sr_slug = slug p, sr_description = description p,
                sr_tags = tags p, sr_content = snippet (htmlContent p)\<rparr>) posts"

text \<open>
  \<^verbatim>\<open>Array.prototype.sort\<close> is stable; with the comparator \<^verbatim>\<open>(a, b) => b.k - a.k\<close> on numbers it
  gives the one stable arrangement in descending order of \<open>k\<close>, which is the stable
  insertion sort \<^const>\<open>sort_key\<close> on the negated key.
\<close>

definition sort_desc :: "('a \<Rightarrow> int) \<Rightarrow> 'a list \<Rightarrow> 'a list" where
  "sort_desc k xs = sort_key (\<lambda>x. - k x) xs"

definition matches :: "post \<Rightarrow> post \<Rightarrow> nat" where
  \<comment> \<open>\<^verbatim>\<open>p.tags.filter(tag => post.tags.includes(tag)).length\<close>\<close>
  "matches post p = length (filter (\<lambda>tag. tag \<in> set (tags post)) (tags p))"

definition related :: "post list \<Rightarrow> post \<Rightarrow> post list" where
  "related posts post =
     map fst
       (take 3
         (sort_desc (\<lambda>x. int (snd x))
           (filter (\<lambda>x. 0 < snd x)
             (map (\<lambda>p. (p, matches post p))
               (filter (\<lambda>p. slug p \<noteq> slug post) posts)))))"

text \<open>
  \<^verbatim>\<open>posts.sort((a, b) => b.date - a.date)\<close>.  The difference of two dates is the difference of
  their time values, and NaN (here \<open>None\<close>) when one of them is not a valid date; the sort
  takes NaN for 0.  A stable sort moves an element behind another only when the comparator
  is positive for the pair; where the comparator orders the elements consistently, as it
  does when all dates are valid, the result is the one stable arrangement, which the
  insertion below gives.  Where it does not (invalid dates among valid ones), the language
  leaves the order to the implementation: the model then has the order of this insertion,
  and no statement below depends on it.
\<close>

definition date_difference :: "post \<Rightarrow> post \<Rightarrow> int option" where
  "date_difference a b =
     (case date b of None \<Rightarrow> None
      | Some tb \<Rightarrow> (case date a of None \<Rightarrow> None | Some ta \<Rightarrow> Some (tb - ta)))"

fun insert_with :: "('a \<Rightarrow> 'a \<Rightarrow> int option) \<Rightarrow> 'a \<Rightarrow> 'a list \<Rightarrow> 'a list" where
  "insert_with compare x [] = [x]"
| "insert_with compare x (y # ys) =
     (if (case compare x y of None \<Rightarrow> False | Some v \<Rightarrow> 0 < v) then y # insert_with compare x ys
      else x # y # ys)"

definition sort_with :: "('a \<Rightarrow> 'a \<Rightarrow> int option) \<Rightarrow> 'a list \<Rightarrow> 'a list" where
  "sort_with compare xs = foldr (insert_with compare) xs []"

text \<open>What a completed build has produced: the sorted posts, the search index written to
  \<^verbatim>\<open>search.json\<close>, the related posts of every page, and the files written.\<close>

record site =
  site_posts :: "post list"
  site_search :: "search_record list"
  site_related :: "post list list"
  site_written :: "string list"

definition build ::
  "(string \<Rightarrow> error + frontmatter \<times> string) \<Rightarrow> (string \<Rightarrow> token list) \<Rightarrow>
   (string \<times> string) list \<Rightarrow> error + site" where
  "build matter lexer dir =
     (case process_files matter lexer (filter (\<lambda>(file, rawContent). endsWith file ''.md'') dir) []
      of Inl e \<Rightarrow> Inl e
       | Inr unsorted \<Rightarrow>
           (let posts = sort_with date_difference unsorted
            in Inr \<lparr>site_posts = posts, site_search = searchIndex posts,
                    site_related = map (related posts) posts,
                    site_written = [''search.json'']
                      @ map (\<lambda>p. ''posts/'' @ slug p @ ''.html'') posts @ [''index.html'']\<rparr>))"

text \<open>
  The last line of the program is \<^verbatim>\<open>build().catch(console.error)\<close>.  The call of an async
  function gives a promise: rejected with the exception its body throws, fulfilled when the
  body returns.  \<^verbatim>\<open>catch\<close> gives a new promise: for a rejected promise the handler is called,
  here it prints the error, and the new promise is fulfilled; a fulfilled promise is passed
  on.  When nothing is left to do, the process ends: with status 1 when a promise is
  rejected and no handler has taken the rejection, and otherwise with
  \<^verbatim>\<open>process.exitCode\<close>, which the program never sets, that is with status 0.
\<close>

datatype 'a promise = Fulfilled 'a | Rejected error

definition async :: "error + 'a \<Rightarrow> 'a promise" where
  "async body = (case body of Inl e \<Rightarrow> Rejected e | Inr v \<Rightarrow> Fulfilled v)"


definition exit_status :: "'a promise \<Rightarrow> nat" where
  "exit_status p = (case p of Rejected e \<Rightarrow> 1 | Fulfilled v \<Rightarrow> 0)"




section \<open>The properties as the specification words them\<close>

text \<open>A file name with its extension \<^verbatim>\<open>.md\<close> stripped.\<close>

definition without_extension :: "string \<Rightarrow> string" where
  "without_extension file = take (length file - length ''.md'') file"

text \<open>The number of whitespace-separated words: a word starts at every character that is not
  whitespace and does not follow such a character.\<close>

fun words_from :: "bool \<Rightarrow> string \<Rightarrow> nat" where
  "words_from in_word [] = 0"
| "words_from in_word (c # cs) =
     (if is_space c then words_from False cs
      else (if in_word then 0 else 1) + words_from True cs)"

definition word_count :: "string \<Rightarrow> nat" where
  "word_count s = words_from False s"

text \<open>Every maximal run of characters outside \<^verbatim>\<open>[A-Za-z0-9_]\<close> replaced by one hyphen.\<close>

fun dash_runs :: "bool \<Rightarrow> string \<Rightarrow> string" where
  "dash_runs in_run [] = []"
| "dash_runs in_run (c # cs) =
     (if is_word c then c # dash_runs False cs
      else (if in_run then [] else ''-'') @ dash_runs True cs)"

text \<open>A markup tag is a \<^verbatim>\<open><\<close> with everything up to and including the next \<^verbatim>\<open>>\<close>, or up to the end
  where no \<^verbatim>\<open>>\<close> follows.  The text with every tag deleted, and with every tag replaced by one
  space.\<close>

fun delete_tags :: "bool \<Rightarrow> string \<Rightarrow> string" where
  "delete_tags in_tag [] = []"
| "delete_tags in_tag (c # cs) =
     (if in_tag then (if c = CHR ''>'' then delete_tags False cs else delete_tags True cs)
      else if c = CHR ''<'' then delete_tags True cs
      else c # delete_tags False cs)"

fun blank_tags :: "bool \<Rightarrow> string \<Rightarrow> string" where
  "blank_tags in_tag [] = []"
| "blank_tags in_tag (c # cs) =
     (if in_tag then (if c = CHR ''>'' then blank_tags False cs else blank_tags True cs)
      else if c = CHR ''<'' then CHR '' '' # blank_tags True cs
      else c # blank_tags False cs)"

text \<open>The characters of an anchor: the lower-case letters a to z (97 to 122), the digits
  (48 to 57), the underscore (95) and the hyphen (45).\<close>

definition anchor_char :: "char \<Rightarrow> bool" where
  "anchor_char c = ((97 \<le> code c \<and> code c \<le> 122) \<or> (48 \<le> code c \<and> code c \<le> 57)
                    \<or> code c = 95 \<or> code c = 45)"

text \<open>The number of tags two posts share, their tags taken as sets.\<close>

definition shared_tags :: "post \<Rightarrow> post \<Rightarrow> nat" where
  "shared_tags post p = card (set (tags post) \<inter> set (tags p))"

text \<open>The number of entries in the tag list of \<open>p\<close> that are tags of \<open>post\<close>: an entry that
  stands in the list of \<open>p\<close> several times counts each time.\<close>

definition tag_hits :: "post \<Rightarrow> post \<Rightarrow> nat" where
  "tag_hits post p = sum_list (map (\<lambda>tag. if tag \<in> set (tags post) then 1 else 0) (tags p))"

text \<open>The five tokens of an alert, in upper case.\<close>

definition alert_tokens :: "string list" where
  "alert_tokens = [''NOTE'', ''TIP'', ''IMPORTANT'', ''WARNING'', ''CAUTION'']"


text \<open>The headings that are handed to the heading interceptor: those that do not stand
  inside a blockquote passed as a token.\<close>

fun rendered_headings :: "token list \<Rightarrow> heading_arg list"
  and rendered_headings_of :: "token \<Rightarrow> heading_arg list" where
  "rendered_headings [] = []"
| "rendered_headings (t # ts) = rendered_headings_of t @ rendered_headings ts"
| "rendered_headings_of (Heading a) = [a]"
| "rendered_headings_of (Blockquote_html ts) = rendered_headings ts"
| "rendered_headings_of (Blockquote_token quote ts) = []"
| "rendered_headings_of (Container wrap ts) = rendered_headings ts"
| "rendered_headings_of (Rendered h) = []"


text \<open>
  The text and the level of a heading.  The text is the first positional argument, or the
  \<^verbatim>\<open>text\<close> of the token (empty when it has none).  The level is the second positional
  argument, or of the token its \<^verbatim>\<open>depth\<close>, or else its \<^verbatim>\<open>level\<close>, a number that is missing or 0
  being passed over, or else 1.  The source of the anchor is the raw source of the heading
  when it is there and not empty, and the text otherwise.
\<close>

fun text_of :: "heading_arg \<Rightarrow> string" where
  "text_of (Positional t l r) = t"
| "text_of (Object obj) = (case tok_text obj of None \<Rightarrow> [] | Some t \<Rightarrow> t)"

fun level_of :: "heading_arg \<Rightarrow> nat" where
  "level_of (Positional t l r) = l"
| "level_of (Object obj) =
     (case tok_depth obj of
        Some (Suc d) \<Rightarrow> Suc d
      | _ \<Rightarrow> (case tok_level obj of Some (Suc l) \<Rightarrow> Suc l | _ \<Rightarrow> 1))"

fun source_of :: "heading_arg \<Rightarrow> string" where
  "source_of (Positional t l r) = (case r of Some (c # cs) \<Rightarrow> c # cs | _ \<Rightarrow> t)"
| "source_of (Object obj) =
     (case tok_raw obj of Some (c # cs) \<Rightarrow> c # cs | _ \<Rightarrow> text_of (Object obj))"

text \<open>The entry of a heading in the table of contents: its anchor, text and level.\<close>

definition toc_entry :: "heading_arg \<Rightarrow> toc_item" where
  "toc_entry a =
     \<lparr>item_anchor = dash_runs False (toLowerCase (source_of a)), item_text = text_of a,
      item_level = level_of a\<rparr>"

text \<open>The other posts that have in their tag list an entry that is a tag of the post, in the
  order of the corpus, and their ranking: descending by the number of such entries, posts
  with equal numbers in the order of the corpus.\<close>

definition candidates :: "post list \<Rightarrow> post \<Rightarrow> post list" where
  "candidates posts post = filter (\<lambda>p. slug p \<noteq> slug post \<and> 0 < tag_hits post p) posts"

definition ranked :: "post list \<Rightarrow> post \<Rightarrow> post list" where
  "ranked posts post = sort_desc (\<lambda>p. int (tag_hits post p)) (candidates posts post)"

text \<open>The same ranking by the number of shared tags, the tags taken as sets.\<close>

definition shared_ranking :: "post list \<Rightarrow> post \<Rightarrow> post list" where
  "shared_ranking posts post =
     sort_desc (\<lambda>p. int (shared_tags post p))
       (filter (\<lambda>p. slug p \<noteq> slug post \<and> 0 < shared_tags post p) posts)"

text \<open>A post with a given slug, date and tags, for examples.\<close>

definition example_post :: "string \<Rightarrow> int \<Rightarrow> string list \<Rightarrow> post" where
  "example_post name day ts =
     \<lparr>title = Some name, description = None, author = None, slug = name, readingTime = 1,
      toc = [], htmlContent = [], date = Some day, tags = ts, heroImage = None\<rparr>"









section \<open>Auxiliary notions\<close>

text \<open>The inputs a match of an expression can leave, in any order.\<close>

definition rests :: "re \<Rightarrow> string \<Rightarrow> string set" where
  "rests r s = snd ` set (rmatch r s)"

text \<open>The input behind a tag whose \<^verbatim>\<open><\<close> has been read.\<close>

definition after_tag :: "string \<Rightarrow> string" where
  "after_tag cs = (case dropWhile not_gt cs of [] \<Rightarrow> [] | x # r \<Rightarrow> r)"

text \<open>The parts of \<open>alert_re\<close>: the alternatives of the first group, and what follows it.\<close>

definition alert_alt :: re where
  "alert_alt = Alt (Str ''NOTE'') (Alt (Str ''TIP'') (Alt (Str ''IMPORTANT'')
                   (Alt (Str ''WARNING'') (Str ''CAUTION''))))"

definition alert_tail :: re where
  "alert_tail = cat [Str '']'', Star is_space, Group (Star_lazy is_dot), Str ''</p>'',
                     Group (Star any_char)]"

text \<open>The number of maximal runs of whitespace.\<close>

fun runs_from :: "bool \<Rightarrow> string \<Rightarrow> nat" where
  "runs_from in_run [] = 0"
| "runs_from in_run (c # cs) =
     (if is_space c then (if in_run then 0 else 1) + runs_from True cs
      else runs_from False cs)"


section \<open>Lemmas\<close>

subsection \<open>The matcher\<close>

lemma rests_Seq: "rests (Seq a b) s = (\<Union>s' \<in> rests a s. rests b s')"
  by (simp add: rests_def case_prod_beta image_UN image_image)

lemma rests_Group: "rests (Group a) s = rests a s"
  by (simp add: rests_def case_prod_beta image_image)

lemma rests_simps:
  "rests Eps s = {s}"
  "rests (Str w) s = (if take (length w) s = w then {drop (length w) s} else {})"
  "rests (Star P) s = set (stars P s)"
  "rests (Star_lazy P) s = set (stars P s)"
  "rests (Alt a b) s = rests a s \<union> rests b s"
  by (simp_all add: rests_def image_image image_Un)

lemma exec_at_None_iff: "exec_at r s = None \<longleftrightarrow> rests r s = {}"
  by (simp add: exec_at_def rests_def split: list.splits)

lemma stars_self: "s \<in> set (stars P s)"
  by (cases s) simp_all

lemma stars_skip: "list_all P t \<Longrightarrow> v \<in> set (stars P (t @ v))"
  by (induction t) (simp_all add: stars_self)

lemma stars_nonempty: "stars P s \<noteq> []"
  by (cases s) simp_all

lemma last_stars: "last (stars P s) = dropWhile P s"
  by (induction s) (simp_all add: stars_nonempty)

lemma hd_rev_stars: "hd (rev (stars P s)) = dropWhile P s"
  by (simp add: hd_rev last_stars)

lemma exec_at_hd: "rmatch r s \<noteq> [] \<Longrightarrow> exec_at r s = Some (hd (rmatch r s))"
  by (cases "rmatch r s") (simp_all add: exec_at_def)

lemma exec_at_Star: "exec_at (Star P) s = Some ([], dropWhile P s)"
  by (simp add: exec_at_hd stars_nonempty hd_map hd_rev last_stars)

lemma exec_at_Seq:
  assumes "exec_at a s = Some (g, s')" and "exec_at b s' = Some (g', s'')"
  shows "exec_at (Seq a b) s = Some (g @ g', s'')"
  using assms by (auto simp: exec_at_def split: list.splits)

lemma exec_at_Cls_Star:
  "exec_at (Seq (Cls P) (Star P)) (c # cs) = (if P c then Some ([], dropWhile P cs) else None)"
  using exec_at_Star [of P cs] by (auto simp: exec_at_def split: list.splits)

lemma exec_at_Cls_Star_Nil: "exec_at (Seq (Cls P) (Star P)) [] = None"
  by (simp add: exec_at_def)

subsection \<open>Replacing runs outside the word class\<close>

lemma dash_runs_True: "dash_runs True cs = dash_runs False (dropWhile not_word cs)"
  by (induction cs) (simp_all add: not_word_def)

lemma replace_all_nonword: "replace_all nonword_plus ''-'' s = dash_runs False s"
proof (induction s rule: length_induct)
  case (1 s)
  show ?case
  proof (cases s)
    case Nil
    then show ?thesis
      by (simp add: replace_all.simps nonword_plus_def exec_at_Cls_Star_Nil)
  next
    case (Cons c cs)
    have le: "length (dropWhile not_word cs) < Suc (length cs)"
      using length_dropWhile_le [of not_word cs] by simp
    show ?thesis
    proof (cases "not_word c")
      case False
      then have "is_word c" by (simp add: not_word_def)
      with False Cons 1 show ?thesis
        by (simp add: replace_all.simps nonword_plus_def exec_at_Cls_Star)
    next
      case True
      then have "\<not> is_word c" by (simp add: not_word_def)
      with True Cons 1 le show ?thesis
        by (simp add: replace_all.simps nonword_plus_def exec_at_Cls_Star dash_runs_True)
    qed
  qed
qed

subsection \<open>Replacing tags\<close>

lemma exec_at_tag_re_Nil: "exec_at tag_re [] = None"
  by (simp add: tag_re_def cat_def exec_at_def)

lemma exec_at_tag_re_other: "c \<noteq> CHR ''<'' \<Longrightarrow> exec_at tag_re (c # cs) = None"
  by (simp add: tag_re_def cat_def exec_at_def)

lemma dropWhile_not_gt:
  "dropWhile not_gt cs = [] \<or> (\<exists>r. dropWhile not_gt cs = CHR ''>'' # r)"
  by (induction cs) (simp_all add: not_gt_def)

lemma exec_at_opt_gt:
  "d = [] \<or> (\<exists>r. d = CHR ''>'' # r) \<Longrightarrow>
   exec_at (Seq (Alt (Str ''>'') Eps) Eps) d = Some ([], case d of [] \<Rightarrow> [] | x # r \<Rightarrow> r)"
  by (auto simp: exec_at_def)

lemma exec_at_tag_re_lt: "exec_at tag_re (CHR ''<'' # cs) = Some ([], after_tag cs)"
proof -
  have 1: "exec_at (Str ''<'') (CHR ''<'' # cs) = Some ([], cs)"
    by (simp add: exec_at_def)
  have 2: "exec_at (Seq (Star not_gt) (Seq (Alt (Str ''>'') Eps) Eps)) cs = Some ([] @ [], after_tag cs)"
    unfolding after_tag_def
    by (rule exec_at_Seq [OF exec_at_Star exec_at_opt_gt]) (rule dropWhile_not_gt)
  show ?thesis
    unfolding tag_re_def cat_def using exec_at_Seq [OF 1 2] by simp
qed

lemma length_after_tag: "length (after_tag cs) \<le> length cs"
proof -
  have "length (after_tag cs) \<le> length (dropWhile not_gt cs)"
    by (simp add: after_tag_def split: list.splits)
  then show ?thesis
    using length_dropWhile_le [of not_gt cs] by simp
qed

lemma blank_tags_True: "blank_tags True cs = blank_tags False (after_tag cs)"
  by (induction cs) (simp_all add: after_tag_def not_gt_def)

lemma delete_tags_True: "delete_tags True cs = delete_tags False (after_tag cs)"
  by (induction cs) (simp_all add: after_tag_def not_gt_def)

lemma replace_all_tag_re: "replace_all tag_re '' '' s = blank_tags False s"
proof (induction s rule: length_induct)
  case (1 s)
  show ?case
  proof (cases s)
    case Nil
    then show ?thesis by (simp add: replace_all.simps exec_at_tag_re_Nil)
  next
    case (Cons c cs)
    show ?thesis
    proof (cases "c = CHR ''<''")
      case True
      with Cons 1 length_after_tag [of cs] show ?thesis
        by (simp add: replace_all.simps exec_at_tag_re_lt blank_tags_True)
    next
      case False
      with Cons 1 show ?thesis
        by (simp add: replace_all.simps exec_at_tag_re_other)
    qed
  qed
qed

subsection \<open>Detecting an alert\<close>

lemma alert_re_split: "alert_re = Seq (Str ''<p>[!'') (Seq (Group alert_alt) alert_tail)"
  by (simp add: alert_re_def alert_alt_def alert_tail_def cat_def)

lemma rmatch_Seq_Str: "rmatch (Seq (Str w) b) (w @ u) = rmatch b u"
  by (simp add: case_prod_beta)

lemma rmatch_Seq_single:
  "rmatch a s = [(g, s')] \<Longrightarrow> rmatch (Seq a b) s = map (\<lambda>(g', s''). (g @ g', s'')) (rmatch b s')"
  by simp

lemma rmatch_alert_alt:
  "tok \<in> set alert_tokens \<Longrightarrow> rmatch (Group alert_alt) (tok @ u) = [([tok], u)]"
  by (auto simp: alert_tokens_def alert_alt_def)

lemma rmatch_alert_re:
  assumes "tok \<in> set alert_tokens"
  shows "rmatch alert_re (''<p>[!'' @ tok @ u) = map (\<lambda>(g, s'). (tok # g, s')) (rmatch alert_tail u)"
  unfolding alert_re_split rmatch_Seq_Str rmatch_Seq_single [OF rmatch_alert_alt [OF assms]]
  by simp

lemma rests_alert_tail:
  assumes "list_all is_dot trailing"
  shows "rests alert_tail ('']'' @ trailing @ ''</p>'' @ rest) \<noteq> {}"
proof -
  let ?w = "''</p>'' @ rest"
  have 1: "rests (Seq (Str ''</p>'') (Seq (Group (Star any_char)) Eps)) ?w \<noteq> {}"
    by (simp add: rests_Seq rests_Group rests_simps stars_nonempty)
  have 2: "?w \<in> rests (Group (Star_lazy is_dot)) (trailing @ ?w)"
    using stars_skip [OF assms] by (simp add: rests_Group rests_simps)
  have 3: "trailing @ ?w \<in> rests (Star is_space) (trailing @ ?w)"
    by (simp add: rests_simps stars_self)
  have "rests (Seq (Star is_space) (Seq (Group (Star_lazy is_dot))
          (Seq (Str ''</p>'') (Seq (Group (Star any_char)) Eps)))) (trailing @ ?w) \<noteq> {}"
    using 1 2 3 unfolding rests_Seq [of "Star is_space"] rests_Seq [of "Group (Star_lazy is_dot)"]
    by blast
  then show ?thesis
    by (simp add: alert_tail_def cat_def rests_Seq [of "Str '']''"] rests_simps)
qed

lemma alert_detected:
  assumes tok: "tok \<in> set alert_tokens" and tr: "list_all is_dot trailing"
  shows "\<exists>c. alert (''<p>[!'' @ tok @ '']'' @ trailing @ ''</p>'' @ rest) = Some c
             \<and> alert_title c = tok \<and> alert_type c = toLowerCase tok"
proof -
  let ?u = "'']'' @ trailing @ ''</p>'' @ rest"
  from rests_alert_tail [OF tr, of rest] obtain m ms where m: "rmatch alert_tail ?u = m # ms"
    by (cases "rmatch alert_tail ?u") (simp_all add: rests_def)
  have "exec_at alert_re (''<p>[!'' @ tok @ ?u) = Some (tok # fst m, snd m)"
    unfolding exec_at_def rmatch_alert_re [OF tok] m by (simp add: case_prod_beta)
  then show ?thesis
    unfolding alert_def match_anchored_def by simp
qed

lemma rests_Seq_nonempty: "rests (Seq a b) s \<noteq> {} \<Longrightarrow> \<exists>s' \<in> rests a s. rests b s' \<noteq> {}"
  by (auto simp: rests_Seq)

lemma rests_Str_nonempty: "rests (Seq (Str w) b) s \<noteq> {} \<Longrightarrow> take (length w) s = w"
  by (auto simp: rests_Seq rests_simps split: if_splits)

lemma rests_Str_drop: "rests (Seq (Str w) b) s \<noteq> {} \<Longrightarrow> rests b (drop (length w) s) \<noteq> {}"
  by (auto simp: rests_Seq rests_simps split: if_splits)

lemma rests_alert_alt:
  "s1 \<in> rests (Group alert_alt) s \<Longrightarrow>
   \<exists>tok \<in> set alert_tokens. take (length tok) s = tok \<and> s1 = drop (length tok) s"
  unfolding rests_Group alert_alt_def alert_tokens_def
  by (simp add: rests_simps split: if_splits)

lemma alert_only_tokens:
  assumes "alert s \<noteq> None"
  shows "\<exists>tok \<in> set alert_tokens. \<exists>u. s = ''<p>[!'' @ tok @ '']'' @ u"
proof -
  from assms have ne: "rests alert_re s \<noteq> {}"
    by (auto simp: alert_def match_anchored_def exec_at_None_iff [symmetric] split: option.splits)
  have p: "take (length ''<p>[!'') s = ''<p>[!''"
    using ne unfolding alert_re_split by (rule rests_Str_nonempty)
  have "rests (Seq (Group alert_alt) alert_tail) (drop (length ''<p>[!'') s) \<noteq> {}"
    using ne unfolding alert_re_split by (rule rests_Str_drop)
  from rests_Seq_nonempty [OF this] obtain s1 where s1: "s1 \<in> rests (Group alert_alt) (drop (length ''<p>[!'') s)"
    and tl: "rests alert_tail s1 \<noteq> {}"
    by blast
  from rests_alert_alt [OF s1] obtain tok where tok: "tok \<in> set alert_tokens"
    and t: "take (length tok) (drop (length ''<p>[!'') s) = tok"
    and d: "s1 = drop (length tok) (drop (length ''<p>[!'') s)"
    by blast
  have b: "take (length '']'') s1 = '']''"
    using tl unfolding alert_tail_def cat_def foldr.simps o_def id_def by (rule rests_Str_nonempty)
  have "s = take (length ''<p>[!'') s @ take (length tok) (drop (length ''<p>[!'') s)
            @ take (length '']'') s1 @ drop (length '']'') s1"
    unfolding d by (simp only: append_take_drop_id)
  then have "s = ''<p>[!'' @ tok @ '']'' @ drop (length '']'') s1"
    unfolding p t b .
  with tok show ?thesis by blast
qed

subsection \<open>Splitting at whitespace\<close>

lemma runs_from_True: "runs_from True cs = runs_from False (dropWhile is_space cs)"
  by (induction cs) simp_all

lemma length_split_from:
  "length (split_from ws_plus piece s) = Suc (runs_from False s)"
proof (induction s arbitrary: piece rule: length_induct)
  case (1 s)
  show ?case
  proof (cases s)
    case Nil
    then show ?thesis by (simp add: split_from.simps)
  next
    case (Cons c cs)
    have le: "length (dropWhile is_space cs) < Suc (length cs)"
      using length_dropWhile_le [of is_space cs] by simp
    show ?thesis
    proof (cases "is_space c")
      case True
      with Cons 1 le show ?thesis
        by (simp add: split_from.simps ws_plus_def exec_at_Cls_Star runs_from_True)
    next
      case False
      with Cons 1 show ?thesis
        by (simp add: split_from.simps ws_plus_def exec_at_Cls_Star)
    qed
  qed
qed

lemma words_runs:
  "s = [] \<or> \<not> is_space (last s) \<Longrightarrow>
   words_from True s = runs_from False s \<and> (s \<noteq> [] \<longrightarrow> words_from False s = Suc (runs_from True s))"
proof (induction s)
  case Nil
  then show ?case by simp
next
  case (Cons c cs)
  then show ?case by (cases "cs = []") auto
qed

lemma words_from_dropWhile: "words_from False (dropWhile is_space s) = words_from False s"
  by (induction s) simp_all

lemma words_from_spaces: "list_all is_space ws \<Longrightarrow> words_from b ws = 0"
  by (induction ws arbitrary: b) simp_all

lemma words_from_append_spaces: "list_all is_space ws \<Longrightarrow> words_from b (u @ ws) = words_from b u"
  by (induction u arbitrary: b) (simp_all add: words_from_spaces)

lemma words_from_drop_trailing:
  "words_from b (rev (dropWhile is_space (rev u))) = words_from b u"
proof -
  have u: "rev (dropWhile is_space (rev u)) @ rev (takeWhile is_space (rev u)) = u"
    by (simp flip: rev_append)
  have "list_all is_space (rev (takeWhile is_space (rev u)))"
    by (auto simp: list_all_iff dest: set_takeWhileD)
  from words_from_append_spaces [OF this, of b "rev (dropWhile is_space (rev u))"]
  show ?thesis by (simp only: u)
qed

lemma last_dropWhile: "dropWhile P xs \<noteq> [] \<Longrightarrow> last (dropWhile P xs) = last xs"
  by (induction xs) auto

lemma word_count_trim: "word_count (trim s) = word_count s"
  by (simp add: word_count_def trim_def words_from_drop_trailing words_from_dropWhile)

lemma trim_ends: "trim s = [] \<or> (\<not> is_space (hd (trim s)) \<and> \<not> is_space (last (trim s)))"
proof (cases "trim s = []")
  case True
  then show ?thesis by simp
next
  case False
  let ?d = "dropWhile is_space s"
  let ?e = "dropWhile is_space (rev ?d)"
  from False have e: "?e \<noteq> []" by (simp add: trim_def)
  have d: "?d \<noteq> []"
  proof
    assume "?d = []"
    then have "?e = []" by (simp only: rev.simps dropWhile.simps)
    with e show False by blast
  qed
  have "last (trim s) = hd ?e" using e by (simp add: trim_def last_rev)
  moreover have "\<not> is_space (hd ?e)" using e hd_dropWhile by blast
  moreover have "hd (trim s) = last ?e" using e by (simp add: trim_def hd_rev)
  moreover have "last ?e = last (rev ?d)"
    using e by (rule last_dropWhile)
  moreover have "last (rev ?d) = hd ?d" using d by (simp add: last_rev)
  moreover have "\<not> is_space (hd ?d)" using d hd_dropWhile by blast
  ultimately show ?thesis by simp
qed

lemma words_of_trimmed:
  assumes "t \<noteq> []" "\<not> is_space (hd t)" "\<not> is_space (last t)"
  shows "Suc (runs_from False t) = words_from False t"
proof -
  from assms obtain c cs where t: "t = c # cs" by (cases t) auto
  with assms have c: "\<not> is_space c" by simp
  have "cs = [] \<or> \<not> is_space (last cs)" using assms t by auto
  from words_runs [OF this] c t show ?thesis by simp
qed

lemma length_split_trim:
  "length (split_re ws_plus (trim s)) = max 1 (word_count s)"
proof (cases "trim s = []")
  case True
  then have "word_count (trim s) = 0" by (simp add: word_count_def)
  then have "word_count s = 0" by (simp add: word_count_trim)
  with True show ?thesis
    by (simp add: split_re_def ws_plus_def exec_at_Cls_Star_Nil)
next
  case False
  have wc: "words_from False (trim s) = word_count s"
    using word_count_trim [of s] by (simp add: word_count_def)
  from False trim_ends [of s] have "Suc (runs_from False (trim s)) = words_from False (trim s)"
    by (intro words_of_trimmed) auto
  then have r: "Suc (runs_from False (trim s)) = word_count s"
    by (simp only: wc)
  have "length (split_re ws_plus (trim s)) = Suc (runs_from False (trim s))"
    using False by (simp add: split_re_def length_split_from)
  with r show ?thesis by simp
qed

lemma getReadingTime_eq: "getReadingTime body = max 1 ((word_count body + 199) div 200)"
proof -
  have "getReadingTime body = (max 1 (word_count body) + 199) div 200"
    by (simp add: getReadingTime_def length_split_trim wordsPerMinute_def Let_def)
  also have "\<dots> = max 1 ((word_count body + 199) div 200)"
    by (cases "word_count body = 0") (simp_all add: max_def)
  finally show ?thesis .
qed

subsection \<open>Anchors\<close>

lemma str_or_Some: "str_or (Some s) [] = s"
  by (simp add: str_or_def)

lemma anchor_eq: "anchor a = dash_runs False (toLowerCase (str_or (headerRaw a) (headerText a)))"
  by (simp add: anchor_def replace_all_nonword str_or_Some)

lemma set_dash_runs: "c \<in> set (dash_runs b s) \<Longrightarrow> c = CHR ''-'' \<or> (c \<in> set s \<and> is_word c)"
  by (induction s arbitrary: b) (auto split: if_splits)

lemma code_lower_char: "\<not> (65 \<le> code (lower_char c) \<and> code (lower_char c) \<le> 90)"
proof -
  have "code c < 256" by (simp add: code_def)
  then show ?thesis by (auto simp: lower_char_def code_def)
qed

lemma word_lower_anchor_char: "is_word (lower_char c) \<Longrightarrow> anchor_char (lower_char c)"
  using code_lower_char [of c] by (auto simp: is_word_def anchor_char_def)

lemma anchor_chars: "c \<in> set (anchor a) \<Longrightarrow> anchor_char c"
proof -
  assume "c \<in> set (anchor a)"
  then have "c = CHR ''-'' \<or> (c \<in> set (toLowerCase (str_or (headerRaw a) (headerText a))) \<and> is_word c)"
    unfolding anchor_eq by (rule set_dash_runs)
  then show ?thesis
  proof
    assume "c = CHR ''-''"
    then show ?thesis by (simp add: anchor_char_def code_def)
  next
    assume "c \<in> set (toLowerCase (str_or (headerRaw a) (headerText a))) \<and> is_word c"
    then show ?thesis by (auto simp: toLowerCase_def word_lower_anchor_char)
  qed
qed

lemma fst_heading:
  \<open>fst (heading a acc) = ''<h'' @ string_of_nat (headerLevel a) @ '' id="'' @ anchor a @ ''">''
      @ headerText a @ ''</h'' @ string_of_nat (headerLevel a) @ ''>''\<close>
  by (simp add: heading_def Let_def)

subsection \<open>The table of contents\<close>

lemma headerText_text_of: "headerText a = text_of a"
  by (cases a) (simp_all add: str_or_def split: option.splits)

lemma headerLevel_level_of: "headerLevel a = level_of a"
  by (cases a) (simp_all add: num_or_def split: option.splits nat.splits)

lemma headerRaw_source_of: "str_or (headerRaw a) (headerText a) = source_of a"
  by (cases a) (simp_all add: str_or_def split: option.splits list.splits)

lemma toc_entry_heading:
  "toc_entry a = \<lparr>item_anchor = anchor a, item_text = headerText a, item_level = headerLevel a\<rparr>"
  by (simp add: toc_entry_def anchor_eq headerRaw_source_of)
    (simp add: headerText_text_of headerLevel_level_of)

lemma snd_heading: "snd (heading a acc) = acc @ (if level_of a \<le> 3 then [toc_entry a] else [])"
  by (simp add: heading_def toc_entry_heading Let_def headerLevel_level_of [symmetric])

lemma toc_parse_render:
  "snd (parse ts acc) = acc @ map toc_entry (filter (\<lambda>a. level_of a \<le> 3) (rendered_headings ts))"
  "snd (render t acc) = acc @ map toc_entry (filter (\<lambda>a. level_of a \<le> 3) (rendered_headings_of t))"
proof (induction ts acc and t acc rule: parse_render.induct)
  case (1 acc)
  show ?case by simp
next
  case (2 t ts acc)
  obtain h acc1 where r: "render t acc = (h, acc1)" by (cases "render t acc")
  obtain h' acc2 where p: "parse ts acc1 = (h', acc2)" by (cases "parse ts acc1")
  from 2(1) r
  have "acc1 = acc @ map toc_entry (filter (\<lambda>a. level_of a \<le> 3) (rendered_headings_of t))"
    by simp
  moreover from 2(2) [OF r [symmetric]] p
  have "acc2 = acc1 @ map toc_entry (filter (\<lambda>a. level_of a \<le> 3) (rendered_headings ts))"
    by simp
  ultimately show ?case using r p by simp
next
  case (3 a acc)
  show ?case by (simp add: snd_heading)
next
  case (4 ts acc)
  then show ?case by (simp add: case_prod_beta)
next
  case (5 quote ts acc)
  show ?case by simp
next
  case (6 wrap ts acc)
  then show ?case by (simp add: case_prod_beta)
next
  case (7 h acc)
  show ?case by simp
qed

lemma toc_processMarkdown:
  "fst (processMarkdown lexer content)
     = map toc_entry (filter (\<lambda>a. level_of a \<le> 3) (rendered_headings (lexer content)))"
  using toc_parse_render(1) [of "lexer content" "[]"]
  by (simp add: processMarkdown_def case_prod_beta)


subsection \<open>Related posts\<close>

lemma length_filter_sum:
  "length (filter P xs) = sum_list (map (\<lambda>x. if P x then 1 else 0) xs)"
  by (induction xs) simp_all

lemma matches_hits: "matches post p = tag_hits post p"
  by (simp add: matches_def tag_hits_def length_filter_sum)

lemma hits_shared: "distinct (tags p) \<Longrightarrow> tag_hits post p = shared_tags post p"
proof -
  assume d: "distinct (tags p)"
  have "set (filter (\<lambda>tag. tag \<in> set (tags post)) (tags p)) = set (tags post) \<inter> set (tags p)"
    by auto
  moreover have "distinct (filter (\<lambda>tag. tag \<in> set (tags post)) (tags p))"
    using d by simp
  ultimately have "length (filter (\<lambda>tag. tag \<in> set (tags post)) (tags p)) = shared_tags post p"
    using distinct_card [of "filter (\<lambda>tag. tag \<in> set (tags post)) (tags p)"]
    by (simp add: shared_tags_def)
  then show ?thesis
    by (simp add: tag_hits_def length_filter_sum)
qed

lemma insort_key_map: "insort_key f (g x) (map g ys) = map g (insort_key (\<lambda>y. f (g y)) x ys)"
  by (induction ys) simp_all

lemma sort_key_map: "sort_key f (map g xs) = map g (sort_key (\<lambda>y. f (g y)) xs)"
  by (induction xs) (simp_all add: insort_key_map)

lemma related_eq_matches:
  "related posts post =
     take 3 (sort_desc (\<lambda>p. int (matches post p))
       (filter (\<lambda>p. slug p \<noteq> slug post \<and> 0 < matches post p) posts))"
  by (simp add: related_def sort_desc_def filter_map sort_key_map take_map o_def)

lemma related_ranked: "related posts post = take 3 (ranked posts post)"
  by (simp add: related_eq_matches matches_hits ranked_def candidates_def)

lemma set_ranked:
  "set (ranked posts post) = {p \<in> set posts. slug p \<noteq> slug post \<and> 0 < tag_hits post p}"
  by (simp add: ranked_def sort_desc_def candidates_def)

lemma sorted_ranked:
  "sorted_wrt (\<lambda>p q. tag_hits post q \<le> tag_hits post p) (ranked posts post)"
proof -
  have "sorted (map (\<lambda>p. - int (tag_hits post p)) (ranked posts post))"
    by (simp add: ranked_def sort_desc_def)
  then show ?thesis by (simp add: sorted_map)
qed

lemma stable_ranked:
  "filter (\<lambda>p. tag_hits post p = n) (ranked posts post)
     = filter (\<lambda>p. tag_hits post p = n) (candidates posts post)"
proof -
  have "filter (\<lambda>p. - int (tag_hits post p) = - int n) (ranked posts post)
     = filter (\<lambda>p. - int (tag_hits post p) = - int n) (candidates posts post)"
    unfolding ranked_def sort_desc_def by (rule sort_key_stable)
  then show ?thesis by simp
qed

subsection \<open>The run\<close>





lemma unhandled_rejection: "build matter lexer dir = Inl e \<Longrightarrow> exit_status (async (build matter lexer dir)) = 1"
  by (simp add: async_def exit_status_def)

lemma insert_with_difference:
  "insert_with (\<lambda>a b. Some (k b - k a)) x ys = insort_key (\<lambda>x. - k x) x ys"
  by (induction ys) auto

lemma sort_with_difference: "sort_with (\<lambda>a b. Some (k b - k a)) xs = sort_desc k xs"
  by (induction xs) (simp_all add: sort_with_def sort_desc_def insert_with_difference)

lemma insert_with_valid_dates:
  "date x = Some t \<Longrightarrow> \<forall>y\<in>set ys. date y \<noteq> None \<Longrightarrow>
   insert_with date_difference x ys = insert_with (\<lambda>a b. Some (the (date b) - the (date a))) x ys"
  by (induction ys) (auto simp: date_difference_def)

lemma set_insert_with: "set (insert_with compare x ys) = insert x (set ys)"
  by (induction ys) auto

lemma set_sort_with: "set (sort_with compare xs) = set xs"
  by (induction xs) (simp_all add: sort_with_def set_insert_with)

lemma sort_with_valid_dates:
  "\<forall>p\<in>set posts. date p \<noteq> None \<Longrightarrow>
   sort_with date_difference posts = sort_desc (\<lambda>p. the (date p)) posts"
proof -
  assume v: "\<forall>p\<in>set posts. date p \<noteq> None"
  then have "sort_with date_difference posts
      = sort_with (\<lambda>a b. Some (the (date b) - the (date a))) posts"
  proof (induction posts)
    case Nil
    show ?case by (simp add: sort_with_def)
  next
    case (Cons p posts)
    then obtain t where t: "date p = Some t" by auto
    from Cons have ih: "sort_with date_difference posts
      = sort_with (\<lambda>a b. Some (the (date b) - the (date a))) posts" by simp
    have "\<forall>y\<in>set (sort_with (\<lambda>a b. Some (the (date b) - the (date a))) posts). date y \<noteq> None"
      using Cons.prems by (simp add: set_sort_with)
    from insert_with_valid_dates [OF t this] ih show ?case
      by (simp add: sort_with_def)
  qed
  then show ?thesis by (simp add: sort_with_difference)
qed

subsection \<open>Evaluations\<close>

lemma lower_warning: "toLowerCase ''WARNING'' = ''warning''"
  by code_simp

lemma callout_not_plain: "callout_html c \<noteq> plain_blockquote s"
  by (simp add: callout_html_def plain_blockquote_def)

lemma blank_tags_plain: "list_all (\<lambda>c. c \<noteq> CHR ''<'') s \<Longrightarrow> blank_tags False s = s"
  by (induction s) simp_all

lemma words_from_word: "words_from False (''word '' @ s) = Suc (words_from False s)"
  by (simp add: is_space_def code_def)

lemma word_count_words: "word_count (concat (replicate n ''word '')) = n"
  by (induction n) (simp_all add: word_count_def words_from_word del: append.simps)

lemma example_hits:
  "tag_hits (example_post a d ts) (example_post a' d' ts')
     = sum_list (map (\<lambda>tag. if tag \<in> set ts then 1 else 0) ts')"
  by (simp add: tag_hits_def example_post_def)

lemma example_shared:
  "shared_tags (example_post a d ts) (example_post a' d' ts') = card (set ts \<inter> set ts')"
  by (simp add: shared_tags_def example_post_def)

lemma example_slug: "slug (example_post a d ts) = a"
  by (simp add: example_post_def)




lemma hello_world: "dash_runs False (toLowerCase ''Hello World!'') = ''hello-world-''"
  by code_simp

lemma string_of_2: "string_of_nat 2 = ''2''"
  by code_simp


section \<open>Blockquotes become callouts\<close>

text \<open>
  Claim C1.  For the content \<^verbatim>\<open><p>[!TIP] Remember this</p><p>More text</p>\<close> the interceptor
  finds the alert with title \<^verbatim>\<open>TIP\<close>, but the expression that removes the first paragraph
  allows no text behind the closing bracket: the body of the callout is the whole content,
  which still contains \<^verbatim>\<open>[!TIP]\<close>.  Without the trailing text the paragraph is removed.
\<close>

theorem blockquote_keeps_first_paragraph_with_trailing_text:
  "alert ''<p>[!TIP] Remember this</p><p>More text</p>'' =
     Some \<lparr>alert_type = ''tip'', alert_title = ''TIP'',
           restOfContent = ''<p>[!TIP] Remember this</p><p>More text</p>''\<rparr>
   \<and> str_includes ''<p>[!TIP] Remember this</p><p>More text</p>'' ''[!TIP]''
   \<and> alert ''<p>[!TIP]</p><p>More text</p>'' =
     Some \<lparr>alert_type = ''tip'', alert_title = ''TIP'', restOfContent = ''<p>More text</p>''\<rparr>"
  by code_simp

text \<open>
  A token in lower case is not detected: \<^verbatim>\<open><p>[!note] x</p>\<close> stays a plain blockquote, while
  \<^verbatim>\<open><p>[!NOTE] x</p>\<close> is an alert.
\<close>

theorem alert_lower_case_token_not_detected:
  "alert ''<p>[!note] x</p>'' = None
   \<and> blockquote (Content ''<p>[!note] x</p>'') = plain_blockquote ''<p>[!note] x</p>''
   \<and> alert ''<p>[!NOTE] x</p>'' \<noteq> None"
  by code_simp

text \<open>
  Claim C2, for the tokens in upper case.  A content that starts with \<^verbatim>\<open><p>[!\<close>, one of the five
  tokens in upper case and \<^verbatim>\<open>]\<close>, followed by text without a line terminator and the end
  of the paragraph, is rendered as a callout whose title is the token and whose type is the
  token in lower case, and the callout is not the plain blockquote.  A content that does not
  start with \<^verbatim>\<open><p>[!\<close>, one of the tokens in upper case and \<^verbatim>\<open>]\<close> is rendered as a plain
  blockquote.
\<close>

theorem alert_detects_upper_case_tokens:
  "(tok \<in> set alert_tokens \<and> list_all is_dot trailing \<longrightarrow>
      (\<exists>c. alert (''<p>[!'' @ tok @ '']'' @ trailing @ ''</p>'' @ rest) = Some c
          \<and> alert_title c = tok \<and> alert_type c = toLowerCase tok
          \<and> blockquote (Content (''<p>[!'' @ tok @ '']'' @ trailing @ ''</p>'' @ rest)) = callout_html c
          \<and> callout_html c \<noteq> plain_blockquote (''<p>[!'' @ tok @ '']'' @ trailing @ ''</p>'' @ rest)))
   \<and> (\<not> (\<exists>tok \<in> set alert_tokens. \<exists>u. s = ''<p>[!'' @ tok @ '']'' @ u) \<longrightarrow>
        blockquote (Content s) = plain_blockquote s)"
proof (intro conjI impI)
  assume "tok \<in> set alert_tokens \<and> list_all is_dot trailing"
  then obtain c where c: "alert (''<p>[!'' @ tok @ '']'' @ trailing @ ''</p>'' @ rest) = Some c"
    "alert_title c = tok" "alert_type c = toLowerCase tok"
    using alert_detected [of tok trailing rest] by blast
  have "blockquote (Content (''<p>[!'' @ tok @ '']'' @ trailing @ ''</p>'' @ rest)) = callout_html c"
    unfolding blockquote_def contentStr.simps c(1) by simp
  with c callout_not_plain show "\<exists>c. alert (''<p>[!'' @ tok @ '']'' @ trailing @ ''</p>'' @ rest) = Some c
          \<and> alert_title c = tok \<and> alert_type c = toLowerCase tok
          \<and> blockquote (Content (''<p>[!'' @ tok @ '']'' @ trailing @ ''</p>'' @ rest)) = callout_html c
          \<and> callout_html c \<noteq> plain_blockquote (''<p>[!'' @ tok @ '']'' @ trailing @ ''</p>'' @ rest)"
    by blast
next
  assume "\<not> (\<exists>tok \<in> set alert_tokens. \<exists>u. s = ''<p>[!'' @ tok @ '']'' @ u)"
  then have "alert s = None" using alert_only_tokens [of s] by blast
  then show "blockquote (Content s) = plain_blockquote s"
    by (simp add: blockquote_def)
qed

theorem alert_detects_upper_case_tokens_witness:
  "(\<exists>c. alert ''<p>[!WARNING] hot</p><p>More</p>'' = Some c \<and> alert_title c = ''WARNING''
        \<and> alert_type c = ''warning''
        \<and> blockquote (Content ''<p>[!WARNING] hot</p><p>More</p>'') = callout_html c)
   \<and> blockquote (Content ''<p>[!warning] hot</p>'') = ''<blockquote><p>[!warning] hot</p></blockquote>''"
proof -
  have 1: "''WARNING'' \<in> set alert_tokens \<and> list_all is_dot '' hot''"
    by (simp add: alert_tokens_def is_dot_def code_def)
  have 2: "\<not> (\<exists>tok \<in> set alert_tokens. \<exists>u. ''<p>[!warning] hot</p>'' = ''<p>[!'' @ tok @ '']'' @ u)"
    by (simp add: alert_tokens_def)
  from alert_detects_upper_case_tokens [of "''WARNING''" "'' hot''" "''<p>More</p>''" "''<p>[!warning] hot</p>''"]
    1 2 show ?thesis
    by (simp add: lower_warning plain_blockquote_def) blast
qed


section \<open>The search snippet\<close>

text \<open>
  The tags of \<^verbatim>\<open><p>Hi</p>\<close> are not deleted: each leaves a space, and the snippet is
  \<^verbatim>\<open>Hi\<close> between two spaces.
\<close>

theorem snippet_tags_become_spaces:
  "snippet ''<p>Hi</p>'' = '' Hi '' \<and> take 300 (delete_tags False ''<p>Hi</p>'') = ''Hi''"
  by code_simp

text \<open>
  Claim C3, with a space for every tag.  The snippet of a post is its rendered HTML with every
  tag replaced by one space, cut at 300 characters; where the text with the tags replaced
  is longer than 300 characters the snippet has exactly 300 characters.  The search index
  carries this snippet for every post, in the order of the posts.
\<close>

theorem snippet_blank_tags:
  "snippet html = take 300 (blank_tags False html)
   \<and> (300 < length (blank_tags False html) \<longrightarrow> length (snippet html) = 300)
   \<and> map sr_content (searchIndex posts) = map (\<lambda>p. take 300 (blank_tags False (htmlContent p))) posts"
  by (simp add: snippet_def replace_all_tag_re searchIndex_def o_def)

theorem snippet_blank_tags_witness:
  "length (snippet (''<b>'' @ replicate 400 (CHR ''x''))) = 300
   \<and> snippet (''<b>'' @ replicate 400 (CHR ''x'')) = CHR '' '' # replicate 299 (CHR ''x'')"
proof -
  have b: "blank_tags False (''<b>'' @ replicate 400 (CHR ''x'')) = CHR '' '' # replicate 400 (CHR ''x'')"
    by (simp add: blank_tags_plain list_all_iff)
  have t: "take 300 (CHR '' '' # replicate 400 (CHR ''x'')) = CHR '' '' # replicate 299 (CHR ''x'')"
    by (simp add: take_Cons')
  from snippet_blank_tags [of "''<b>'' @ replicate 400 (CHR ''x'')" "[]"] show ?thesis
    unfolding b t by simp
qed


section \<open>A failing document\<close>





section \<open>Related posts\<close>

text \<open>
  A post that lists a shared tag three times is ranked first by the code, before a post that
  shares two tags; by the number of shared tags it stands last of the three.
\<close>

theorem related_counts_repeated_tags:
  "related [example_post ''T'' 5 [''x'', ''y''], example_post ''P1'' 4 [''x''],
            example_post ''P2'' 3 [''y'', ''y'', ''y''], example_post ''P3'' 2 [''x'', ''y''],
            example_post ''P4'' 1 [''q'']] (example_post ''T'' 5 [''x'', ''y''])
     = [example_post ''P2'' 3 [''y'', ''y'', ''y''], example_post ''P3'' 2 [''x'', ''y''],
        example_post ''P1'' 4 [''x'']]
   \<and> take 3 (shared_ranking [example_post ''T'' 5 [''x'', ''y''], example_post ''P1'' 4 [''x''],
            example_post ''P2'' 3 [''y'', ''y'', ''y''], example_post ''P3'' 2 [''x'', ''y''],
            example_post ''P4'' 1 [''q'']] (example_post ''T'' 5 [''x'', ''y'']))
     = [example_post ''P3'' 2 [''x'', ''y''], example_post ''P1'' 4 [''x''],
        example_post ''P2'' 3 [''y'', ''y'', ''y'']]"
proof -
  have i: "set [''x'', ''y''] \<inter> set [''x''] = {''x''}"
    "set [''x'', ''y''] \<inter> set [''y'', ''y'', ''y''] = {''y''}"
    "set [''x'', ''y''] \<inter> set [''x'', ''y''] = {''x'', ''y''}"
    "set [''x'', ''y''] \<inter> set [''q''] = {}"
    by auto
  show ?thesis
    by (simp add: related_eq_matches matches_hits example_hits example_slug sort_desc_def
        shared_ranking_def example_shared i)
qed

text \<open>
  Claim C5, with the count the code makes.  The related posts of a post are the first three
  of the ranking of the corpus: the ranking consists of the other posts that have at least
  one entry in their tag list that is a tag of the post, it is in descending order of the
  number of such entries, and the posts with the same number stand in the order they have
  in the corpus (which the build has sorted by date, most recent first).  Where no other
  post has such an entry, the list is empty.  For a post that lists no tag twice the number
  of such entries is the number of tags the two posts share.
\<close>

theorem related_by_tag_hits:
  "related posts post = take 3 (ranked posts post)
   \<and> set (ranked posts post) = {p \<in> set posts. slug p \<noteq> slug post \<and> 0 < tag_hits post p}
   \<and> sorted_wrt (\<lambda>p q. tag_hits post q \<le> tag_hits post p) (ranked posts post)
   \<and> (\<forall>n. filter (\<lambda>p. tag_hits post p = n) (ranked posts post)
            = filter (\<lambda>p. tag_hits post p = n) (candidates posts post))
   \<and> (candidates posts post = [] \<longrightarrow> related posts post = [])
   \<and> (distinct (tags p) \<longrightarrow> tag_hits post p = shared_tags post p)"
proof -
  have e: "candidates posts post = [] \<longrightarrow> related posts post = []"
    by (simp add: related_ranked ranked_def sort_desc_def)
  from related_ranked set_ranked sorted_ranked stable_ranked e hits_shared
  show ?thesis by blast
qed

text \<open>The example of the specification: A with tags x and y, B with y and z, C with z, A the
  most recent; and a post D that shares no tag with them.\<close>

theorem related_by_tag_hits_witness:
  "related [example_post ''A'' 3 [''x'', ''y''], example_post ''B'' 2 [''y'', ''z''],
            example_post ''C'' 1 [''z'']] (example_post ''A'' 3 [''x'', ''y''])
     = [example_post ''B'' 2 [''y'', ''z'']]
   \<and> related [example_post ''A'' 3 [''x'', ''y''], example_post ''B'' 2 [''y'', ''z''],
            example_post ''C'' 1 [''z'']] (example_post ''B'' 2 [''y'', ''z''])
     = [example_post ''A'' 3 [''x'', ''y''], example_post ''C'' 1 [''z'']]
   \<and> related [example_post ''A'' 3 [''x'', ''y''], example_post ''B'' 2 [''y'', ''z''],
            example_post ''C'' 1 [''z'']] (example_post ''D'' 0 [''q'']) = []
   \<and> tag_hits (example_post ''A'' 3 [''x'', ''y'']) (example_post ''B'' 2 [''y'', ''z''])
     = shared_tags (example_post ''A'' 3 [''x'', ''y'']) (example_post ''B'' 2 [''y'', ''z''])"
proof -
  let ?A = "example_post ''A'' 3 [''x'', ''y'']"
  let ?B = "example_post ''B'' 2 [''y'', ''z'']"
  let ?C = "example_post ''C'' 1 [''z'']"
  let ?D = "example_post ''D'' 0 [''q'']"
  have d: "distinct (tags ?B)"
    by (simp add: example_post_def)
  have c: "candidates [?A, ?B, ?C] ?D = []"
    by (simp add: candidates_def example_hits example_slug)
  note a = related_by_tag_hits [of "[?A, ?B, ?C]" ?A ?B]
  note b = related_by_tag_hits [of "[?A, ?B, ?C]" ?B ?B]
  note n = related_by_tag_hits [of "[?A, ?B, ?C]" ?D ?B]
  from a have 1: "related [?A, ?B, ?C] ?A = take 3 (ranked [?A, ?B, ?C] ?A)" by blast
  from b have 2: "related [?A, ?B, ?C] ?B = take 3 (ranked [?A, ?B, ?C] ?B)" by blast
  from n c have 3: "related [?A, ?B, ?C] ?D = []" by blast
  from a d have 4: "tag_hits ?A ?B = shared_tags ?A ?B" by blast
  have "take 3 (ranked [?A, ?B, ?C] ?A) = [?B]"
    "take 3 (ranked [?A, ?B, ?C] ?B) = [?A, ?C]"
    by (simp_all add: ranked_def candidates_def sort_desc_def example_hits example_slug)
  with 1 2 3 4 show ?thesis by simp
qed


section \<open>Reading time\<close>

text \<open>
  Claim C6.  The reading time is the number of whitespace-separated words divided by 200 and
  rounded up, and at least 1: 200 words give 1, 401 words give 3 and the empty content
  gives 1.
\<close>

theorem getReadingTime_words:
  "getReadingTime body = max 1 ((word_count body + 199) div 200)
   \<and> (word_count body1 = 200 \<longrightarrow> getReadingTime body1 = 1)
   \<and> (word_count body2 = 401 \<longrightarrow> getReadingTime body2 = 3)
   \<and> getReadingTime [] = 1"
  by (simp add: getReadingTime_eq word_count_def)

theorem getReadingTime_words_witness:
  "getReadingTime (concat (replicate 200 ''word '')) = 1
   \<and> getReadingTime (concat (replicate 401 ''word '')) = 3
   \<and> getReadingTime ''one two  three'' = 1"
proof -
  have w: "word_count ''one two  three'' = 3"
    by (simp add: word_count_def is_space_def code_def)
  from getReadingTime_words [of "''one two  three''" "concat (replicate 200 ''word '')"
      "concat (replicate 401 ''word '')"]
  show ?thesis
    by (simp only: word_count_words w) simp
qed


section \<open>Headings\<close>

text \<open>
  The anchor is made from the raw source of the heading where the renderer receives one: for
  the token of \<^verbatim>\<open># Hello World!\<close> the anchor starts with a hyphen, which the anchor made
  from the text \<^verbatim>\<open>Hello World!\<close> does not.
\<close>

theorem heading_anchor_from_raw:
  "anchor (Object \<lparr>tok_text = Some ''Hello World!'', tok_depth = Some 1, tok_level = None,
                   tok_raw = Some (''# Hello World!'' @ [CHR 0x0A])\<rparr>) = ''-hello-world-''
   \<and> dash_runs False (toLowerCase ''Hello World!'') = ''hello-world-''"
  by code_simp

text \<open>
  Claim C7, with the source of the anchor.  The anchor of a heading is the lower-case form of
  its raw source when that is present and not empty, and of its text otherwise, with every
  maximal run of characters outside \<^verbatim>\<open>[A-Za-z0-9_]\<close> replaced by one hyphen and nothing
  cleaned up.  So it is made from the text when there is no raw source or the raw source is
  the text; the anchor made from \<^verbatim>\<open>Hello World!\<close> is \<^verbatim>\<open>hello-world-\<close>.  The heading is
  rendered as \<^verbatim>\<open><hL id="anchor">T</hL>\<close> for its level \<open>L\<close> and its text \<open>T\<close>.
\<close>

theorem heading_anchor_and_html:
  \<open>anchor a = dash_runs False (toLowerCase (str_or (headerRaw a) (headerText a)))
   \<and> (headerRaw a = None \<or> headerRaw a = Some [] \<or> headerRaw a = Some (headerText a) \<longrightarrow>
        anchor a = dash_runs False (toLowerCase (headerText a)))
   \<and> fst (heading a acc) = ''<h'' @ string_of_nat (headerLevel a) @ '' id="'' @ anchor a @ ''">''
        @ headerText a @ ''</h'' @ string_of_nat (headerLevel a) @ ''>''
   \<and> dash_runs False (toLowerCase ''Hello World!'') = ''hello-world-''\<close>
proof -
  have "headerRaw a = None \<or> headerRaw a = Some [] \<or> headerRaw a = Some (headerText a) \<longrightarrow>
        str_or (headerRaw a) (headerText a) = headerText a"
    by (auto simp: str_or_def)
  then show ?thesis
    by (auto simp: anchor_eq fst_heading hello_world)
qed

theorem heading_anchor_and_html_witness:
  \<open>anchor (Positional ''Hello World!'' 2 None) = ''hello-world-''
   \<and> fst (heading (Positional ''Hello World!'' 2 None) []) = ''<h2 id="hello-world-">Hello World!</h2>''\<close>
proof -
  let ?a = "Positional ''Hello World!'' 2 None"
  note t = heading_anchor_and_html [of ?a "[]"]
  have r: "headerRaw ?a = None" by simp
  from t r have "anchor ?a = dash_runs False (toLowerCase (headerText ?a))" by blast
  moreover from t have "dash_runs False (toLowerCase ''Hello World!'') = ''hello-world-''" by blast
  ultimately have a: "anchor ?a = ''hello-world-''" by simp
  from t have \<open>fst (heading ?a []) = ''<h'' @ string_of_nat (headerLevel ?a) @ '' id="'' @ anchor ?a
      @ ''">'' @ headerText ?a @ ''</h'' @ string_of_nat (headerLevel ?a) @ ''>''\<close>
    by blast
  with a show ?thesis by (simp add: string_of_2)
qed




text \<open>
  Claim C10.  Every anchor consists of lower-case letters, digits, underscores and hyphens
  only: the anchor of every heading, whatever its text and raw source, and so the anchor of
  every entry of a table of contents; the anchor of the empty text is empty.
\<close>

theorem anchor_characters:
  "(\<forall>c\<in>set (anchor a). anchor_char c)
   \<and> (\<forall>e\<in>set (fst (processMarkdown lexer content)). \<forall>c\<in>set (item_anchor e). anchor_char c)
   \<and> (\<forall>e\<in>set (snd (heading a acc)). (\<forall>c\<in>set (item_anchor e). anchor_char c)
          \<or> e \<in> set acc)
   \<and> anchor (Positional [] l None) = []"
proof -
  have 1: "\<forall>c\<in>set (anchor a). anchor_char c" for a
    by (simp add: anchor_chars)
  have 2: "\<forall>e\<in>set (fst (processMarkdown lexer content)). \<forall>c\<in>set (item_anchor e). anchor_char c"
    by (auto simp: toc_processMarkdown toc_entry_heading anchor_chars)
  have 3: "\<forall>e\<in>set (snd (heading a acc)). (\<forall>c\<in>set (item_anchor e). anchor_char c) \<or> e \<in> set acc"
    by (auto simp: snd_heading toc_entry_heading anchor_chars)
  have 4: "anchor (Positional [] l None) = []"
    by (simp add: anchor_eq str_or_def toLowerCase_def)
  from 1 2 3 4 show ?thesis by blast
qed

theorem anchor_characters_witness:
  "list_all anchor_char (anchor (Positional ''Hello, World_1!'' 1 None))
   \<and> anchor (Positional ''Hello, World_1!'' 1 None) = ''hello-world_1-''"
proof -
  have "anchor (Positional ''Hello, World_1!'' 1 None) = ''hello-world_1-''"
    by code_simp
  with anchor_characters [of "Positional ''Hello, World_1!'' 1 None"] show ?thesis
    by (simp add: list_all_iff)
qed


section \<open>Slugs\<close>

text \<open>
  Claim C9.  The slug is the file name with the first occurrence of \<^verbatim>\<open>.md\<close> removed, which is
  the extension only when \<^verbatim>\<open>.md\<close> does not occur earlier: for \<^verbatim>\<open>notes.mdx.md\<close> the slug is
  \<^verbatim>\<open>notesx.md\<close>, while the name without its extension is \<^verbatim>\<open>notes.mdx\<close>.
\<close>

theorem slug_of_inner_md_removed:
  "endsWith ''notes.mdx.md'' ''.md''
   \<and> slug_of ''notes.mdx.md'' = ''notesx.md''
   \<and> without_extension ''notes.mdx.md'' = ''notes.mdx''"
  by code_simp

end
